theory Spec2Isabelle
  imports Main
begin

section \<open>Data model\<close>

text \<open>
  A tree-sitter \<open>SyntaxNode\<close> as the commands read it: its \<open>type\<close>, its
  \<open>startIndex\<close> and \<open>endIndex\<close>, its \<open>text\<close> (the selector is \<open>ntext\<close>,
  as \<open>ntype\<close> is for \<open>type\<close>) and its ordered children.
  \<open>node.child(i)\<close> is the i-th child, or null when there is none.
\<close>

datatype syntax_node =
  SyntaxNode (ntype: string) (startIndex: nat) (endIndex: nat) (ntext: string)
             (children: "syntax_node list")

datatype tree = Tree (rootNode: syntax_node)

definition child :: "syntax_node \<Rightarrow> nat \<Rightarrow> syntax_node option" where
  "child n i = (if i < length (children n) then Some (children n ! i) else None)"

text \<open>An element of the \<open>targets\<close> arrays: \<open>{startIndex, endIndex}\<close>.\<close>

type_synonym target = "nat \<times> nat"

text \<open>The errors the command classes throw.\<close>

datatype error =
    UpdateRequiresContent
  | InvalidRegexPattern
  | RegExpSyntaxError
  | InsertRequiresPositionAndContent
  | UnknownPosition string

text \<open>
  The JavaScript regular-expression engine is outside the repository. The commands use
  it through three operations, taken as parameters: the match of a node text against
  the literal \<open>/\/(.+)\/([gimsuy]*)/\<close> (its two groups, or nothing), the
  constructor \<open>new RegExp(source, flags)\<close> (nothing when it throws) and
  \<open>RegExp.prototype.test\<close>, which returns the regular expression object as well,
  since a global or sticky one carries \<open>lastIndex\<close> from one call to the next.
\<close>

record 'r regex_engine =
  match_literal :: "string \<Rightarrow> (string \<times> string) option"
  new_RegExp :: "string \<Rightarrow> string \<Rightarrow> 'r option"
  test :: "'r \<Rightarrow> string \<Rightarrow> bool \<times> 'r"
  replace_first :: "'r \<Rightarrow> string \<Rightarrow> string \<Rightarrow> string"

section \<open>String primitives\<close>

text \<open>\<open>s.substring(a, b)\<close>: both indices are capped at the length and swapped when \<open>a > b\<close>.\<close>

definition substring :: "string \<Rightarrow> nat \<Rightarrow> nat \<Rightarrow> string" where
  "substring c a b =
     (let a' = min a (length c); b' = min b (length c)
      in take (max a' b' - min a' b') (drop (min a' b') c))"

text \<open>\<open>s.substring(a)\<close>, to the end of the string.\<close>

definition substring_from :: "string \<Rightarrow> nat \<Rightarrow> string" where
  "substring_from c a = drop a c"

definition is_quote :: "char \<Rightarrow> bool" where
  "is_quote ch = (ch = CHR 0x27 \<or> ch = CHR 0x22 \<or> ch = CHR 0x60)"

text \<open>
  \<open>s.replace(/^['"`]|['"`]$/g, '')\<close>: one quote character is dropped at the start,
  and one at the end of what is left.
\<close>

definition strip_quotes :: "string \<Rightarrow> string" where
  "strip_quotes s =
     (let s1 = (case s of [] \<Rightarrow> [] | ch # r \<Rightarrow> if is_quote ch then r else s)
      in if s1 \<noteq> [] \<and> is_quote (last s1) then butlast s1 else s1)"

text \<open>\<open>s.includes(v)\<close>: \<open>v\<close> occurs in \<open>s\<close> as a contiguous run.\<close>

fun starts_with :: "string \<Rightarrow> string \<Rightarrow> bool" where
  "starts_with s [] = True"
| "starts_with [] (v # vs) = False"
| "starts_with (x # xs) (v # vs) = (x = v \<and> starts_with xs vs)"

fun str_includes :: "string \<Rightarrow> string \<Rightarrow> bool" where
  "str_includes [] v = (v = [])"
| "str_includes (x # xs) v = (starts_with (x # xs) v \<or> str_includes xs v)"

text \<open>\<open>parts.join(sep)\<close>.\<close>

fun join :: "string \<Rightarrow> string list \<Rightarrow> string" where
  "join sep [] = []"
| "join sep [x] = x"
| "join sep (x # y # ys) = x @ sep @ join sep (y # ys)"

section \<open>Target resolution\<close>

text \<open>
  \<open>UpdateCommand\<close>, \<open>SelectCommand\<close> and \<open>DeleteCommand\<close> each carry their own copy of
  \<open>findNodesWithType\<close>, \<open>findNodesWithText\<close>, \<open>findNodesMatchingRegex\<close>,
  \<open>extractRegexPattern\<close>, \<open>findTargets\<close>, \<open>filterTargetsByCondition\<close>,
  \<open>findNodeAtPosition\<close> and \<open>parseCondition\<close>; the three copies are the same
  statement for statement, so each is embedded once. The \<open>targets\<close> array that the
  walks push to is passed in and returned.
\<close>

fun findNodesWithType :: "syntax_node \<Rightarrow> string \<Rightarrow> target list \<Rightarrow> target list"
and findNodesWithType_children :: "syntax_node list \<Rightarrow> string \<Rightarrow> target list \<Rightarrow> target list"
where
  "findNodesWithType (SyntaxNode t s e tx cs) ty targets =
     findNodesWithType_children cs ty (if t = ty then targets @ [(s, e)] else targets)"
| "findNodesWithType_children [] ty targets = targets"
| "findNodesWithType_children (c # cs) ty targets =
     findNodesWithType_children cs ty (findNodesWithType c ty targets)"

fun findNodesWithText :: "syntax_node \<Rightarrow> string \<Rightarrow> target list \<Rightarrow> target list"
and findNodesWithText_children :: "syntax_node list \<Rightarrow> string \<Rightarrow> target list \<Rightarrow> target list"
where
  "findNodesWithText (SyntaxNode t s e tx cs) txt targets =
     findNodesWithText_children cs txt (if tx = txt then targets @ [(s, e)] else targets)"
| "findNodesWithText_children [] txt targets = targets"
| "findNodesWithText_children (c # cs) txt targets =
     findNodesWithText_children cs txt (findNodesWithText c txt targets)"

fun findNodesMatchingRegex ::
  "'r regex_engine \<Rightarrow> syntax_node \<Rightarrow> 'r \<Rightarrow> target list \<Rightarrow> target list \<times> 'r"
and findNodesMatchingRegex_children ::
  "'r regex_engine \<Rightarrow> syntax_node list \<Rightarrow> 'r \<Rightarrow> target list \<Rightarrow> target list \<times> 'r"
where
  "findNodesMatchingRegex E (SyntaxNode t s e tx cs) pattern targets =
     (case test E pattern tx of (hit, pattern') \<Rightarrow>
        findNodesMatchingRegex_children E cs pattern'
          (if hit then targets @ [(s, e)] else targets))"
| "findNodesMatchingRegex_children E [] pattern targets = (targets, pattern)"
| "findNodesMatchingRegex_children E (c # cs) pattern targets =
     (case findNodesMatchingRegex E c pattern targets of (targets', pattern') \<Rightarrow>
        findNodesMatchingRegex_children E cs pattern' targets')"

definition extractRegexPattern :: "'r regex_engine \<Rightarrow> syntax_node \<Rightarrow> error + 'r" where
  "extractRegexPattern E node =
     (case match_literal E (ntext node) of
        None \<Rightarrow> Inl InvalidRegexPattern
      | Some (src, flags) \<Rightarrow>
          (case new_RegExp E src flags of
             None \<Rightarrow> Inl RegExpSyntaxError
           | Some r \<Rightarrow> Inr r))"

fun findNodeAtPosition :: "syntax_node \<Rightarrow> nat \<Rightarrow> nat \<Rightarrow> syntax_node option"
and findNodeAtPosition_children :: "syntax_node list \<Rightarrow> nat \<Rightarrow> nat \<Rightarrow> syntax_node option"
where
  "findNodeAtPosition (SyntaxNode t s e tx cs) startIdx endIdx =
     (if s = startIdx \<and> e = endIdx then Some (SyntaxNode t s e tx cs)
      else findNodeAtPosition_children cs startIdx endIdx)"
| "findNodeAtPosition_children [] startIdx endIdx = None"
| "findNodeAtPosition_children (c # cs) startIdx endIdx =
     (if startIndex c \<le> startIdx \<and> endIndex c \<ge> endIdx then
        (case findNodeAtPosition c startIdx endIdx of
           Some found \<Rightarrow> Some found
         | None \<Rightarrow> findNodeAtPosition_children cs startIdx endIdx)
      else findNodeAtPosition_children cs startIdx endIdx)"

text \<open>
  \<open>parseCondition\<close>: the texts of the condition node's first three children, with
  \<open>||\<close> replacing a missing or empty one by its default.
\<close>

definition or_default :: "string option \<Rightarrow> string \<Rightarrow> string" where
  "or_default v d = (case v of None \<Rightarrow> d | Some s \<Rightarrow> if s = [] then d else s)"

definition parseCondition :: "syntax_node \<Rightarrow> string \<times> string \<times> string" where
  "parseCondition node =
     (or_default (map_option ntext (child node 0)) [],
      or_default (map_option ntext (child node 1)) ''='',
      or_default (map_option (\<lambda>n. strip_quotes (ntext n)) (child node 2)) [])"

definition keepTarget :: "tree \<Rightarrow> string \<Rightarrow> string \<Rightarrow> string \<Rightarrow> target \<Rightarrow> bool" where
  "keepTarget tr field operator val tg =
     (if field = ''type'' then
        (case findNodeAtPosition (rootNode tr) (fst tg) (snd tg) of
           Some node \<Rightarrow> (if operator = ''='' then ntype node = val else str_includes (ntype node) val)
         | None \<Rightarrow> False)
      else if field = ''text'' then
        (case findNodeAtPosition (rootNode tr) (fst tg) (snd tg) of
           Some textNode \<Rightarrow>
             (if operator = ''='' then ntext textNode = val else str_includes (ntext textNode) val)
         | None \<Rightarrow> False)
      else True)"

definition filterTargetsByCondition :: "target list \<Rightarrow> syntax_node \<Rightarrow> tree \<Rightarrow> target list" where
  "filterTargetsByCondition targets conditionNode tr =
     (case parseCondition conditionNode of (field, operator, val) \<Rightarrow>
        filter (keepTarget tr field operator val) targets)"

definition findTargets ::
  "'r regex_engine \<Rightarrow> tree \<Rightarrow> syntax_node \<Rightarrow> syntax_node option \<Rightarrow> error + target list" where
  "findTargets E tr targetNode conditionNode =
     (case (if ntype targetNode = ''identifier'' then
              Inr (findNodesWithType (rootNode tr) (ntext targetNode) [])
            else if ntype targetNode = ''string'' then
              Inr (findNodesWithText (rootNode tr) (strip_quotes (ntext targetNode)) [])
            else if ntype targetNode = ''regex_pattern'' then
              (case extractRegexPattern E targetNode of
                 Inl err \<Rightarrow> Inl err
               | Inr pattern \<Rightarrow> Inr (fst (findNodesMatchingRegex E (rootNode tr) pattern [])))
            else Inr []) of
        Inl err \<Rightarrow> Inl err
      | Inr targets \<Rightarrow>
          (case conditionNode of
             Some cn \<Rightarrow> Inr (filterTargetsByCondition targets cn tr)
           | None \<Rightarrow> Inr targets))"

section \<open>Commands\<close>

definition extractContent :: "syntax_node \<Rightarrow> string" where
  "extractContent node = strip_quotes (ntext node)"

definition replaceContent :: "string \<Rightarrow> nat \<Rightarrow> nat \<Rightarrow> string \<Rightarrow> string" where
  "replaceContent content start endIdx newContent =
     substring content 0 start @ newContent @ substring_from content endIdx"

definition deleteContent :: "string \<Rightarrow> nat \<Rightarrow> nat \<Rightarrow> string" where
  "deleteContent content start endIdx =
     substring content 0 start @ substring_from content endIdx"

text \<open>
  The loops of \<open>UpdateCommand.execute\<close> and \<open>DeleteCommand.execute\<close>: they run
  over \<open>targets.reverse()\<close>, from \<open>result = content\<close>, and each pass edits
  \<open>result\<close> at the target's indices.
\<close>

definition UpdateCommand_loop :: "string \<Rightarrow> target list \<Rightarrow> string \<Rightarrow> string" where
  "UpdateCommand_loop newContent targets content =
     fold (\<lambda>tg result. replaceContent result (fst tg) (snd tg) newContent) (rev targets) content"

definition DeleteCommand_loop :: "target list \<Rightarrow> string \<Rightarrow> string" where
  "DeleteCommand_loop targets content =
     fold (\<lambda>tg result. deleteContent result (fst tg) (snd tg)) (rev targets) content"

text \<open>\<open>UpdateCommand.execute\<close>.\<close>

definition UpdateCommand_execute ::
  "'r regex_engine \<Rightarrow> syntax_node \<Rightarrow> string \<Rightarrow> tree \<Rightarrow> error + string" where
  "UpdateCommand_execute E node content tr =
     (case child node 2 of
        None \<Rightarrow> Inl UpdateRequiresContent
      | Some contentNode \<Rightarrow>
          (let newContent = extractContent contentNode in
           case child node 0 of
             None \<Rightarrow> Inr newContent
           | Some targetNode \<Rightarrow>
               (case findTargets E tr targetNode (child node 1) of
                  Inl err \<Rightarrow> Inl err
                | Inr targets \<Rightarrow>
                    Inr (UpdateCommand_loop newContent targets content))))"

text \<open>\<open>SelectCommand.execute\<close>.\<close>

definition SelectCommand_execute ::
  "'r regex_engine \<Rightarrow> syntax_node \<Rightarrow> string \<Rightarrow> tree \<Rightarrow> error + string" where
  "SelectCommand_execute E node content tr =
     (case child node 0 of
        None \<Rightarrow> Inr content
      | Some targetNode \<Rightarrow>
          (case findTargets E tr targetNode (child node 1) of
             Inl err \<Rightarrow> Inl err
           | Inr targets \<Rightarrow>
               Inr (join [CHR 0x0A]
                      (map (\<lambda>tg. substring content (fst tg) (snd tg)) targets))))"

text \<open>\<open>DeleteCommand.execute\<close>.\<close>

definition DeleteCommand_execute ::
  "'r regex_engine \<Rightarrow> syntax_node \<Rightarrow> string \<Rightarrow> tree \<Rightarrow> error + string" where
  "DeleteCommand_execute E node content tr =
     (case child node 0 of
        None \<Rightarrow> Inr []
      | Some targetNode \<Rightarrow>
          (case findTargets E tr targetNode (child node 1) of
             Inl err \<Rightarrow> Inl err
           | Inr targets \<Rightarrow>
               Inr (DeleteCommand_loop targets content)))"

text \<open>\<open>InsertCommand.execute\<close>; the tree is not read.\<close>

definition InsertCommand_execute :: "syntax_node \<Rightarrow> string \<Rightarrow> tree \<Rightarrow> error + string" where
  "InsertCommand_execute node content tr =
     (case (child node 0, child node 1) of
        (Some positionNode, Some contentNode) \<Rightarrow>
          (let newContent = extractContent contentNode; position = ntext positionNode in
           if position = ''start'' then Inr (newContent @ content)
           else if position = ''end'' then Inr (content @ newContent)
           else if position = ''before'' \<or> position = ''after'' then Inr content
           else Inl (UnknownPosition position))
      | _ \<Rightarrow> Inl InsertRequiresPositionAndContent)"

section \<open>The line rule engine\<close>

text \<open>
  \<open>CaseWhen\<close> and \<open>CaseAction\<close> with the optional fields the engine reads
  (\<open>indentLevel\<close>, \<open>lineNumber\<close> and \<open>lineMatcher\<close> are declared and never read).
  An absent field is \<open>None\<close>. The engine tests the fields for truthiness: a boolean
  passes when it is \<open>true\<close>, a string when it is not empty.
\<close>

record CaseWhen =
  when_empty :: "bool option"
  when_regex :: "string option"
  when_prefix :: "string option"
  when_suffix :: "string option"

record CaseAction =
  then_remove :: "bool option"
  then_subPattern :: "string option"
  then_subRepl :: "string option"
  then_indent :: "int option"
  then_content :: "string option"

record CaseStatement =
  cases :: "(CaseWhen \<times> CaseAction) list"
  elseAction :: "CaseAction option"

















section \<open>Notions used to state the properties\<close>

text \<open>All nodes of a tree in pre-order, and the spans they cover.\<close>

fun nodes_of :: "syntax_node \<Rightarrow> syntax_node list" where
  "nodes_of (SyntaxNode t s e tx cs) = SyntaxNode t s e tx cs # concat (map nodes_of cs)"

definition node_spans :: "tree \<Rightarrow> target list" where
  "node_spans tr = map (\<lambda>n. (startIndex n, endIndex n)) (nodes_of (rootNode tr))"

text \<open>Two spans overlap when each starts before the other ends.\<close>

definition spans_overlap :: "target \<Rightarrow> target \<Rightarrow> bool" where
  "spans_overlap a b = (fst a < snd b \<and> fst b < snd a)"

text \<open>
  A match set in ascending order whose spans are pairwise disjoint and lie within a
  content of length \<open>n\<close>: each span starts at or after the end \<open>k\<close> of the one before.
\<close>

fun ascending_disjoint :: "nat \<Rightarrow> target list \<Rightarrow> nat \<Rightarrow> bool" where
  "ascending_disjoint k [] n = (k \<le> n)"
| "ascending_disjoint k ((s, e) # ts) n = (k \<le> s \<and> s \<le> e \<and> ascending_disjoint e ts n)"

text \<open>
  The segments of the content \<open>c\<close> from offset \<open>k\<close> on that lie outside the matches,
  in the order of the content.
\<close>

fun undeleted :: "string \<Rightarrow> nat \<Rightarrow> target list \<Rightarrow> string list" where
  "undeleted c k [] = [drop k c]"
| "undeleted c k ((s, e) # ts) = take (s - k) (drop k c) # undeleted c e ts"

definition match_length :: "target \<Rightarrow> nat" where
  "match_length tg = snd tg - fst tg"

section \<open>Example inputs\<close>

text \<open>An engine in which no pattern compiles, for commands that use none.\<close>

definition no_regex :: "unit regex_engine" where
  "no_regex = \<lparr>match_literal = (\<lambda>_. None), new_RegExp = (\<lambda>_ _. None),
                test = (\<lambda>r _. (False, r)), replace_first = (\<lambda>_ s _. s)\<rparr>"

text \<open>The content \<open>foo bar\<close> with its two identifiers.\<close>

definition tree_foo_bar :: tree where
  "tree_foo_bar = Tree (SyntaxNode ''program'' 0 7 ''foo bar''
      [SyntaxNode ''identifier'' 0 3 ''foo'' [], SyntaxNode ''identifier'' 4 7 ''bar'' []])"

text \<open>The conditions \<open>name = "zzz"\<close> and \<open>type = identifier\<close>.\<close>

definition cond_name :: syntax_node where
  "cond_name = SyntaxNode ''condition'' 0 12 ''name = \"zzz\"''
      [SyntaxNode ''field'' 0 4 ''name'' [], SyntaxNode ''operator'' 5 6 ''='' [],
       SyntaxNode ''string'' 7 12 ''\"zzz\"'' []]"

definition cond_type :: syntax_node where
  "cond_type = SyntaxNode ''condition'' 0 17 ''type = identifier''
      [SyntaxNode ''field'' 0 4 ''type'' [], SyntaxNode ''operator'' 5 6 ''='' [],
       SyntaxNode ''identifier'' 7 17 ''identifier'' []]"

text \<open>The commands \<open>INSERT start "x"\<close> and \<open>INSERT end "y"\<close>.\<close>

definition insert_start_x :: syntax_node where
  "insert_start_x = SyntaxNode ''insert_command'' 0 16 ''INSERT start \"x\"''
      [SyntaxNode ''position'' 7 12 ''start'' [], SyntaxNode ''string'' 13 16 ''\"x\"'' []]"

definition insert_end_y :: syntax_node where
  "insert_end_y = SyntaxNode ''insert_command'' 0 14 ''INSERT end \"y\"''
      [SyntaxNode ''position'' 7 10 ''end'' [], SyntaxNode ''string'' 11 14 ''\"y\"'' []]"

text \<open>The content \<open>f(g(x));\<close>, a call inside a call.\<close>

definition tree_calls :: tree where
  "tree_calls = Tree (SyntaxNode ''program'' 0 8 ''f(g(x));''
      [SyntaxNode ''call'' 0 7 ''f(g(x))''
         [SyntaxNode ''identifier'' 0 1 ''f'' [],
          SyntaxNode ''call'' 2 6 ''g(x)''
            [SyntaxNode ''identifier'' 2 3 ''g'' [], SyntaxNode ''identifier'' 4 5 ''x'' []]]])"

text \<open>A tree over \<open>0123456789ab\<close> with nodes at \<open>(2, 8)\<close> and \<open>(5, 10)\<close>.\<close>

definition tree_overlap :: tree where
  "tree_overlap = Tree (SyntaxNode ''program'' 0 12 ''0123456789ab''
      [SyntaxNode ''identifier'' 2 8 ''234567'' [], SyntaxNode ''identifier'' 5 10 ''56789'' []])"

text \<open>The conditions \<open>type = call\<close> and \<open>text = "bar"\<close>.\<close>

definition cond_type_call :: syntax_node where
  "cond_type_call = SyntaxNode ''condition'' 0 11 ''type = call''
      [SyntaxNode ''field'' 0 4 ''type'' [], SyntaxNode ''operator'' 5 6 ''='' [],
       SyntaxNode ''identifier'' 7 11 ''call'' []]"

definition cond_text_bar :: syntax_node where
  "cond_text_bar = SyntaxNode ''condition'' 0 12 ''text = \"bar\"''
      [SyntaxNode ''field'' 0 4 ''text'' [], SyntaxNode ''operator'' 5 6 ''='' [],
       SyntaxNode ''string'' 7 12 ''\"bar\"'' []]"

text \<open>
  Update commands with target, condition and content: every \<open>call\<close> node becomes
  \<open>NEW()\<close>; every identifier whose text is \<open>bar\<close> becomes \<open>qux\<close>.
\<close>

definition update_calls :: syntax_node where
  "update_calls = SyntaxNode ''update_command'' 0 41
      ''UPDATE call WHERE type = call SET \"NEW()\"''
      [SyntaxNode ''identifier'' 0 4 ''call'' [], cond_type_call,
       SyntaxNode ''string'' 0 7 ''\"NEW()\"'' []]"

definition update_bar :: syntax_node where
  "update_bar = SyntaxNode ''update_command'' 0 46
      ''UPDATE identifier WHERE text = \"bar\" SET \"qux\"''
      [SyntaxNode ''identifier'' 0 10 ''identifier'' [], cond_text_bar,
       SyntaxNode ''string'' 0 5 ''\"qux\"'' []]"

text \<open>The command \<open>DELETE identifier\<close>.\<close>

definition delete_identifier :: syntax_node where
  "delete_identifier = SyntaxNode ''delete_command'' 0 17 ''DELETE identifier''
      [SyntaxNode ''identifier'' 7 17 ''identifier'' []]"





section \<open>Condition filtering\<close>

lemma filter_unknown_field:
  assumes "fst (parseCondition cn) \<noteq> ''type''" and "fst (parseCondition cn) \<noteq> ''text''"
  shows "filterTargetsByCondition targets cn tr = targets"
proof -
  obtain field operator val where pc: "parseCondition cn = (field, operator, val)"
    by (cases "parseCondition cn") auto
  with assms have "keepTarget tr field operator val = (\<lambda>tg. True)"
    by (auto simp: keepTarget_def)
  with pc show ?thesis by (simp add: filterTargetsByCondition_def)
qed

text \<open>
  Claim C2, as the specification states it: for every match set and every condition
  whose field is neither \<open>type\<close> nor \<open>text\<close>, condition filtering fails with an
  \<open>UnsupportedConditionField\<close> error rather than passing every match through.
  The switch of \<open>filterTargetsByCondition\<close> has \<open>default: return true\<close>: with the
  condition \<open>name = "zzz"\<close> both identifiers of \<open>foo bar\<close> are kept, and
  \<open>findTargets\<close> returns them rather than an error.
\<close>

theorem C2_unknown_field_counterexample:
  "parseCondition cond_name = (''name'', ''='', ''zzz'') \<and>
   filterTargetsByCondition [(0, 3), (4, 7)] cond_name tree_foo_bar = [(0, 3), (4, 7)] \<and>
   findTargets no_regex tree_foo_bar (SyntaxNode ''identifier'' 7 17 ''identifier'' [])
     (Some cond_name) = Inr [(0, 3), (4, 7)]"
  by (simp add: findTargets_def filterTargetsByCondition_def parseCondition_def keepTarget_def
      cond_name_def tree_foo_bar_def child_def or_default_def strip_quotes_def is_quote_def)

text \<open>
  Claim C2, amended: for every match set and every condition whose field is neither
  \<open>type\<close> nor \<open>text\<close>, condition filtering returns the match set unchanged and
  raises no error; target resolution with such a condition returns what it returns
  without one.
\<close>

theorem C2_unknown_field_keeps_all:
  assumes "fst (parseCondition cn) \<noteq> ''type''" and "fst (parseCondition cn) \<noteq> ''text''"
  shows "filterTargetsByCondition targets cn tr = targets \<and>
         (findTargets E tr tn None = Inr targets \<longrightarrow> findTargets E tr tn (Some cn) = Inr targets)"
  using filter_unknown_field [OF assms]
  by (auto simp: findTargets_def split: sum.splits)

theorem C2_unknown_field_keeps_all_witness:
  "fst (parseCondition cond_name) \<noteq> ''type'' \<and> fst (parseCondition cond_name) \<noteq> ''text'' \<and>
   filterTargetsByCondition [(0, 3), (4, 7)] cond_name tree_foo_bar = [(0, 3), (4, 7)]"
proof -
  have pc: "parseCondition cond_name = (''name'', ''='', ''zzz'')"
    by (simp add: parseCondition_def cond_name_def child_def or_default_def strip_quotes_def
        is_quote_def)
  have h1: "fst (parseCondition cond_name) \<noteq> ''type''"
    and h2: "fst (parseCondition cond_name) \<noteq> ''text''"
    by (simp_all add: pc)
  from C2_unknown_field_keeps_all [OF h1 h2, where targets = "[(0, 3), (4, 7)]"
      and tr = tree_foo_bar and E = no_regex and tn = cond_name] h1 h2
  show ?thesis by simp
qed

lemma findNodeAtPosition_sound:
  "findNodeAtPosition n s e = Some m \<Longrightarrow>
     m \<in> set (nodes_of n) \<and> startIndex m = s \<and> endIndex m = e"
  "findNodeAtPosition_children cs s e = Some m \<Longrightarrow>
     (\<exists>c \<in> set cs. m \<in> set (nodes_of c)) \<and> startIndex m = s \<and> endIndex m = e"
proof (induction n s e and cs s e rule: findNodeAtPosition_findNodeAtPosition_children.induct)
  case (1 t s e tx cs startIdx endIdx)
  then show ?case by (auto split: if_splits)
next
  case (2 startIdx endIdx)
  then show ?case by simp
next
  case (3 c cs startIdx endIdx)
  then show ?case by (auto split: if_splits option.splits)
qed

lemma keepTarget_unlocatable:
  assumes "field = ''type'' \<or> field = ''text''"
    and "(s, e) \<notin> set (node_spans tr)"
  shows "\<not> keepTarget tr field operator val (s, e)"
proof -
  have "findNodeAtPosition (rootNode tr) s e = None"
  proof (cases "findNodeAtPosition (rootNode tr) s e")
    case None
    then show ?thesis .
  next
    case (Some m)
    from findNodeAtPosition_sound(1) [OF Some] assms(2) show ?thesis
      by (force simp: node_spans_def)
  qed
  with assms(1) show ?thesis by (auto simp: keepTarget_def)
qed

text \<open>
  Claim C10: for every match \<open>(s, e)\<close> of a match set such that no node of the tree
  has exactly start \<open>s\<close> and end \<open>e\<close>, condition filtering on the field \<open>type\<close>
  or \<open>text\<close> leaves that match out of the filtered set, the matches around it being
  filtered as they are without it; and the filter raises no error for it: target
  resolution that succeeds without the condition succeeds with it.
\<close>

theorem C10_unlocatable_match_excluded:
  assumes "fst (parseCondition cn) = ''type'' \<or> fst (parseCondition cn) = ''text''"
    and "(s, e) \<notin> set (node_spans tr)"
  shows "(s, e) \<notin> set (filterTargetsByCondition targets cn tr) \<and>
         filterTargetsByCondition (xs @ (s, e) # ys) cn tr =
           filterTargetsByCondition xs cn tr @ filterTargetsByCondition ys cn tr \<and>
         (\<forall>ts. findTargets E tr tn None = Inr ts \<longrightarrow>
            (\<exists>ts'. findTargets E tr tn (Some cn) = Inr ts' \<and> (s, e) \<notin> set ts'))"
proof -
  obtain field operator val where pc: "parseCondition cn = (field, operator, val)"
    by (cases "parseCondition cn") auto
  with assms(1) have "field = ''type'' \<or> field = ''text''" by simp
  from keepTarget_unlocatable [OF this assms(2)]
  have nk: "\<not> keepTarget tr field operator val (s, e)" .
  have a: "\<And>ts. (s, e) \<notin> set (filterTargetsByCondition ts cn tr)"
    using nk pc by (auto simp: filterTargetsByCondition_def)
  have b: "filterTargetsByCondition (xs @ (s, e) # ys) cn tr =
           filterTargetsByCondition xs cn tr @ filterTargetsByCondition ys cn tr"
    using nk pc by (simp add: filterTargetsByCondition_def)
  have c: "\<forall>ts. findTargets E tr tn None = Inr ts \<longrightarrow>
            (\<exists>ts'. findTargets E tr tn (Some cn) = Inr ts' \<and> (s, e) \<notin> set ts')"
    using a by (auto simp: findTargets_def split: sum.splits)
  from a b c show ?thesis by blast
qed

theorem C10_unlocatable_match_excluded_witness:
  "(fst (parseCondition cond_type) = ''type'' \<or> fst (parseCondition cond_type) = ''text'') \<and>
   node_spans tree_foo_bar = [(0, 7), (0, 3), (4, 7)] \<and>
   (1, 2) \<notin> set (filterTargetsByCondition [(0, 3), (1, 2), (4, 7)] cond_type tree_foo_bar) \<and>
   filterTargetsByCondition [(0, 3), (1, 2), (4, 7)] cond_type tree_foo_bar = [(0, 3), (4, 7)]"
proof -
  have h1: "fst (parseCondition cond_type) = ''type'' \<or> fst (parseCondition cond_type) = ''text''"
    by (simp add: parseCondition_def cond_type_def child_def or_default_def)
  have sp: "node_spans tree_foo_bar = [(0, 7), (0, 3), (4, 7)]"
    by (simp add: tree_foo_bar_def node_spans_def)
  have h2: "(1, 2) \<notin> set (node_spans tree_foo_bar)"
    by (simp add: sp)
  have ev: "filterTargetsByCondition [(0, 3), (1, 2), (4, 7)] cond_type tree_foo_bar
              = [(0, 3), (4, 7)]"
    by (simp add: filterTargetsByCondition_def parseCondition_def keepTarget_def
      cond_type_def tree_foo_bar_def child_def or_default_def strip_quotes_def is_quote_def)
  from C10_unlocatable_match_excluded [OF h1 h2, where targets = "[(0, 3), (1, 2), (4, 7)]"
      and xs = "[]" and ys = "[]" and E = no_regex and tn = cond_type] h1 sp ev
  show ?thesis by simp
qed

section \<open>Edit application\<close>

lemma substring_0: "substring c 0 s = take s c"
  by (simp add: substring_def Let_def min_def)

lemma replaceContent_eq: "replaceContent c s e r = take s c @ r @ drop e c"
  by (simp add: replaceContent_def substring_0 substring_from_def)

lemma deleteContent_eq: "deleteContent c s e = take s c @ drop e c"
  by (simp add: deleteContent_def substring_0 substring_from_def)

text \<open>
  Claim C3: for every content \<open>c\<close>, every target whose resolution yields exactly one
  match \<open>(s, e)\<close> with \<open>s \<le> e \<le> len(c)\<close>, and every replacement text \<open>r\<close> (the
  content node's text without its quotes), UPDATE returns \<open>c[:s] + r + c[e:]\<close>, and
  every character of the result outside the replaced span is the character of \<open>c\<close>
  it comes from: those before \<open>s\<close> at the same index, those from \<open>e\<close> on moved by
  the difference of the lengths.
\<close>

theorem C3_update_single_match:
  assumes "child node 0 = Some targetNode" and "child node 2 = Some contentNode"
    and "findTargets E tr targetNode (child node 1) = Inr [(s, e)]"
    and "s \<le> e" and "e \<le> length c"
  shows "\<exists>out. UpdateCommand_execute E node c tr = Inr out \<and>
           out = take s c @ extractContent contentNode @ drop e c \<and>
           length out = s + length (extractContent contentNode) + (length c - e) \<and>
           (\<forall>i < s. out ! i = c ! i) \<and>
           (\<forall>i. e \<le> i \<and> i < length c \<longrightarrow>
                  out ! (s + length (extractContent contentNode) + (i - e)) = c ! i)"
proof -
  let ?r = "extractContent contentNode"
  let ?out = "take s c @ ?r @ drop e c"
  have ex: "UpdateCommand_execute E node c tr = Inr ?out"
    using assms(1,2,3)
    by (simp add: UpdateCommand_execute_def UpdateCommand_loop_def replaceContent_eq)
  have len: "length ?out = s + length ?r + (length c - e)"
    using assms(4,5) by simp
  have pre: "\<forall>i < s. ?out ! i = c ! i"
    using assms(4,5) by (simp add: nth_append)
  have post: "\<forall>i. e \<le> i \<and> i < length c \<longrightarrow> ?out ! (s + length ?r + (i - e)) = c ! i"
    using assms(4,5) by (auto simp: nth_append)
  from ex len pre post show ?thesis by blast
qed

theorem C3_update_single_match_witness:
  "findTargets no_regex tree_foo_bar (SyntaxNode ''identifier'' 0 10 ''identifier'' [])
     (Some cond_text_bar) = Inr [(4, 7)] \<and>
   UpdateCommand_execute no_regex update_bar ''foo bar'' tree_foo_bar = Inr ''foo qux''"
proof -
  let ?tn = "SyntaxNode ''identifier'' 0 10 ''identifier'' []"
  let ?cn = "SyntaxNode ''string'' 0 5 ''\"qux\"'' []"
  have h1: "child update_bar 0 = Some ?tn" and h2: "child update_bar 2 = Some ?cn"
    by (simp_all add: update_bar_def child_def)
  have c1: "child update_bar 1 = Some cond_text_bar"
    by (simp add: update_bar_def child_def)
  have ft: "findTargets no_regex tree_foo_bar ?tn (Some cond_text_bar) = Inr [(4, 7)]"
    by (simp add: findTargets_def filterTargetsByCondition_def parseCondition_def keepTarget_def
        cond_text_bar_def tree_foo_bar_def child_def or_default_def strip_quotes_def is_quote_def)
  have h3: "findTargets no_regex tree_foo_bar ?tn (child update_bar 1) = Inr [(4, 7)]"
    unfolding c1 by (rule ft)
  have h4: "(4::nat) \<le> 7" and h5: "7 \<le> length ''foo bar''"
    by simp_all
  have r: "extractContent ?cn = ''qux''"
    by (simp add: extractContent_def strip_quotes_def is_quote_def)
  from C3_update_single_match [OF h1 h2 h3 h4 h5] obtain out
    where ex: "UpdateCommand_execute no_regex update_bar ''foo bar'' tree_foo_bar = Inr out"
      and out: "out = take 4 ''foo bar'' @ extractContent ?cn @ drop 7 ''foo bar''"
    by blast
  from ex out have "UpdateCommand_execute no_regex update_bar ''foo bar'' tree_foo_bar
      = Inr ''foo qux''"
    by (simp add: r)
  with ft show ?thesis by blast
qed

lemma delete_loop_Nil: "DeleteCommand_loop [] c = c"
  by (simp add: DeleteCommand_loop_def)

lemma delete_loop_Cons:
  "DeleteCommand_loop ((s, e) # ts) c = deleteContent (DeleteCommand_loop ts c) s e"
  by (simp add: DeleteCommand_loop_def)

lemma ascending_disjoint_le: "ascending_disjoint k ts n \<Longrightarrow> k \<le> n"
  by (induction k ts n rule: ascending_disjoint.induct) auto

lemma delete_loop_segments:
  "ascending_disjoint k ts (length c) \<Longrightarrow>
     DeleteCommand_loop ts c = take k c @ concat (undeleted c k ts)"
proof (induction ts arbitrary: k)
  case Nil
  then show ?case by (simp add: delete_loop_Nil)
next
  case (Cons tg ts)
  obtain s e where tg: "tg = (s, e)" by (cases tg)
  from Cons.prems tg have ks: "k \<le> s" and se: "s \<le> e"
    and rest: "ascending_disjoint e ts (length c)"
    by simp_all
  from ascending_disjoint_le [OF rest] have el: "e \<le> length c" .
  have ih: "DeleteCommand_loop ts c = take e c @ concat (undeleted c e ts)"
    using Cons.IH [OF rest] .
  have "DeleteCommand_loop (tg # ts) c = take s (take e c) @ concat (undeleted c e ts)"
    using se el by (simp add: tg delete_loop_Cons ih deleteContent_eq)
  also have "take s (take e c) = take s c"
    using se by (simp add: min_absorb1)
  also have "take s c = take k c @ take (s - k) (drop k c)"
    using ks by (metis append_take_drop_id le_add_diff_inverse take_add take_drop)
  finally show ?case by (simp add: tg)
qed

lemma length_undeleted:
  "ascending_disjoint k ts (length c) \<Longrightarrow>
     length (concat (undeleted c k ts)) + sum_list (map match_length ts) = length c - k"
proof (induction ts arbitrary: k)
  case Nil
  then show ?case by simp
next
  case (Cons tg ts)
  obtain s e where tg: "tg = (s, e)" by (cases tg)
  from Cons.prems tg have ks: "k \<le> s" and se: "s \<le> e"
    and rest: "ascending_disjoint e ts (length c)"
    by simp_all
  from ascending_disjoint_le [OF rest] have el: "e \<le> length c" .
  from Cons.IH [OF rest] ks se el show ?case
    by (simp add: tg match_length_def)
qed

lemma delete_loop_keeps_prefix:
  "ascending_disjoint k ts (length c) \<Longrightarrow> take k (DeleteCommand_loop ts c) = take k c"
  using ascending_disjoint_le [of k ts "length c"] by (simp add: delete_loop_segments)

lemma ascending_disjoint_split:
  "ascending_disjoint k0 (pre @ post) n \<Longrightarrow>
     \<exists>k. ascending_disjoint k post n \<and> k0 \<le> k \<and>
         (\<forall>tg \<in> set pre. fst tg \<le> snd tg \<and> snd tg \<le> k)"
proof (induction pre arbitrary: k0)
  case Nil
  then show ?case by auto
next
  case (Cons tg pre)
  obtain s e where tg: "tg = (s, e)" by (cases tg)
  from Cons.prems tg have ks: "k0 \<le> s" and se: "s \<le> e"
    and rest: "ascending_disjoint e (pre @ post) n"
    by simp_all
  from Cons.IH [OF rest] obtain k where k: "ascending_disjoint k post n" and ek: "e \<le> k"
    and all: "\<forall>tg \<in> set pre. fst tg \<le> snd tg \<and> snd tg \<le> k"
    by blast
  from ks se ek all k tg show ?case by auto
qed

lemma substring_below:
  assumes "s \<le> e" and "e \<le> k" and "k \<le> length x"
  shows "substring x s e = take (e - s) (drop s (take k x))"
  using assms by (simp add: substring_def Let_def min_def drop_take)

lemma delete_loop_pending_intact:
  assumes "ascending_disjoint 0 (pre @ post) (length c)" and "tg \<in> set pre"
  shows "substring (DeleteCommand_loop post c) (fst tg) (snd tg) = substring c (fst tg) (snd tg)"
proof -
  from ascending_disjoint_split [OF assms(1)] assms(2)
  obtain k where k: "ascending_disjoint k post (length c)"
    and se: "fst tg \<le> snd tg" and ek: "snd tg \<le> k"
    by blast
  from ascending_disjoint_le [OF k] have kl: "k \<le> length c" .
  have tk: "take k (DeleteCommand_loop post c) = take k c"
    by (rule delete_loop_keeps_prefix [OF k])
  have "length (take k (DeleteCommand_loop post c)) = k"
    using kl by (simp add: tk)
  then have kl': "k \<le> length (DeleteCommand_loop post c)" by simp
  show ?thesis
    by (simp add: substring_below [OF se ek kl] substring_below [OF se ek kl'] tk)
qed

text \<open>
  Claim C4: for every content \<open>c\<close> and every target whose resolution yields pairwise
  non-overlapping matches in ascending start order, DELETE returns the un-deleted
  segments of \<open>c\<close> joined in their order in \<open>c\<close>, a content whose length is
  \<open>len(c)\<close> minus the sum of the match lengths; and since the loop goes from the last
  match to the first, once it has deleted the matches \<open>post\<close> every match before them
  still covers, at its own offsets, the text it covered in \<open>c\<close>.
\<close>

theorem C4_delete_disjoint_matches:
  assumes "child node 0 = Some targetNode"
    and "findTargets E tr targetNode (child node 1) = Inr ts"
    and "ascending_disjoint 0 ts (length c)"
  shows "\<exists>out. DeleteCommand_execute E node c tr = Inr out \<and>
           out = concat (undeleted c 0 ts) \<and>
           length out = length c - sum_list (map match_length ts) \<and>
           (\<forall>pre post tg. ts = pre @ post \<and> tg \<in> set pre \<longrightarrow>
              substring (DeleteCommand_loop post c) (fst tg) (snd tg) =
              substring c (fst tg) (snd tg))"
proof -
  have ex: "DeleteCommand_execute E node c tr = Inr (concat (undeleted c 0 ts))"
    using assms(1,2) delete_loop_segments [OF assms(3)]
    by (simp add: DeleteCommand_execute_def)
  have len: "length (concat (undeleted c 0 ts)) = length c - sum_list (map match_length ts)"
    using length_undeleted [OF assms(3)] by simp
  have pend: "\<forall>pre post tg. ts = pre @ post \<and> tg \<in> set pre \<longrightarrow>
              substring (DeleteCommand_loop post c) (fst tg) (snd tg) =
              substring c (fst tg) (snd tg)"
    using assms(3) delete_loop_pending_intact by blast
  from ex len pend show ?thesis by blast
qed

theorem C4_delete_disjoint_matches_witness:
  "findTargets no_regex tree_foo_bar (SyntaxNode ''identifier'' 7 17 ''identifier'' []) None
     = Inr [(0, 3), (4, 7)] \<and>
   ascending_disjoint 0 [(0, 3), (4, 7)] (length ''foo bar'') \<and>
   undeleted ''foo bar'' 0 [(0, 3), (4, 7)] = [Nil, '' '', Nil] \<and>
   DeleteCommand_execute no_regex delete_identifier ''foo bar'' tree_foo_bar = Inr '' '' \<and>
   substring (DeleteCommand_loop [(4, 7)] ''foo bar'') 0 3 = ''foo''"
proof -
  let ?tn = "SyntaxNode ''identifier'' 7 17 ''identifier'' []"
  have h1: "child delete_identifier 0 = Some ?tn"
    by (simp add: delete_identifier_def child_def)
  have c1: "child delete_identifier 1 = None"
    by (simp add: delete_identifier_def child_def)
  have ft: "findTargets no_regex tree_foo_bar ?tn None = Inr [(0, 3), (4, 7)]"
    by (simp add: findTargets_def tree_foo_bar_def)
  have h2: "findTargets no_regex tree_foo_bar ?tn (child delete_identifier 1)
              = Inr [(0, 3), (4, 7)]"
    unfolding c1 by (rule ft)
  have h3: "ascending_disjoint 0 [(0, 3), (4, 7)] (length ''foo bar'')"
    by simp
  have seg: "undeleted ''foo bar'' 0 [(0, 3), (4, 7)] = [Nil, '' '', Nil]"
    by simp
  have sub: "substring ''foo bar'' 0 3 = ''foo''"
    by (simp add: substring_def)
  from C4_delete_disjoint_matches [OF h1 h2 h3] obtain out
    where ex: "DeleteCommand_execute no_regex delete_identifier ''foo bar'' tree_foo_bar = Inr out"
      and out: "out = concat (undeleted ''foo bar'' 0 [(0, 3), (4, 7)])"
      and pend: "\<forall>pre post tg. [(0, 3), (4, 7)] = pre @ post \<and> tg \<in> set pre \<longrightarrow>
              substring (DeleteCommand_loop post ''foo bar'') (fst tg) (snd tg) =
              substring ''foo bar'' (fst tg) (snd tg)"
    by blast
  from pend [rule_format, of "[(0, 3)]" "[(4, 7)]" "(0, 3)"]
  have p: "substring (DeleteCommand_loop [(4, 7)] ''foo bar'') 0 3 = ''foo''"
    by (simp add: sub)
  from ex out
  have r: "DeleteCommand_execute no_regex delete_identifier ''foo bar'' tree_foo_bar = Inr '' ''"
    by (simp add: seg)
  from ft h3 seg r p show ?thesis by blast
qed

text \<open>
  Claim C1: a command whose resolved match set contains two overlapping spans, such as
  \<open>(2, 8)\<close> and \<open>(5, 10)\<close>, is rejected with an \<open>OverlappingTargets\<close> error
  and produces no content. Both loops run over the reversed targets, by their comments
  to maintain positions, and neither compares the spans. On overlapping matches they
  return content, and the content is damaged: DELETE over the spans \<open>(2, 8)\<close> and
  \<open>(5, 10)\<close> of \<open>0123456789ab\<close> returns \<open>01\<close>, so that \<open>ab\<close>, which no match
  covers, is gone; and UPDATE of both calls of \<open>f(g(x));\<close>, the one inside the other,
  returns \<open>NEW());\<close> with a closing parenthesis left over, the end index of the
  outer call being that of the content before the inner edit.
\<close>

theorem C1_overlapping_targets_not_rejected:
  "findTargets no_regex tree_overlap (SyntaxNode ''identifier'' 7 17 ''identifier'' []) None
     = Inr [(2, 8), (5, 10)] \<and>
   spans_overlap (2, 8) (5, 10) \<and>
   DeleteCommand_execute no_regex delete_identifier ''0123456789ab'' tree_overlap = Inr ''01'' \<and>
   findTargets no_regex tree_calls (SyntaxNode ''identifier'' 0 4 ''call'' [])
     (Some cond_type_call) = Inr [(0, 7), (2, 6)] \<and>
   spans_overlap (0, 7) (2, 6) \<and>
   UpdateCommand_execute no_regex update_calls ''f(g(x));'' tree_calls = Inr ''NEW());''"
  by (simp add: findTargets_def filterTargetsByCondition_def parseCondition_def keepTarget_def
      tree_overlap_def tree_calls_def cond_type_call_def update_calls_def delete_identifier_def
      child_def or_default_def strip_quotes_def is_quote_def spans_overlap_def
      DeleteCommand_execute_def UpdateCommand_execute_def DeleteCommand_loop_def
      UpdateCommand_loop_def deleteContent_eq replaceContent_eq extractContent_def)

section \<open>SELECT and INSERT\<close>

text \<open>
  Claim C9: for every content and every tree, SELECT executed with no target specifier
  (the command node has no first child) returns the full input content unchanged.
\<close>

theorem C9_select_without_target:
  "child node 0 = None \<Longrightarrow> SelectCommand_execute E node content tr = Inr content"
  by (simp add: SelectCommand_execute_def)

theorem C9_select_without_target_witness:
  "child (SyntaxNode ''select_command'' 0 6 ''SELECT'' []) 0 = None \<and>
   SelectCommand_execute no_regex (SyntaxNode ''select_command'' 0 6 ''SELECT'' []) ''foo bar''
     tree_foo_bar = Inr ''foo bar''"
proof -
  have h: "child (SyntaxNode ''select_command'' 0 6 ''SELECT'' []) 0 = None"
    by (simp add: child_def)
  show ?thesis using h C9_select_without_target [OF h] by simp
qed

text \<open>
  Claim C6: for every content \<open>c\<close>, INSERT at position \<open>start\<close> with text \<open>x\<close>
  returns \<open>x + c\<close> and INSERT at position \<open>end\<close> with \<open>y\<close> returns \<open>c + y\<close>,
  so that the first followed by the second yields \<open>x + c + y\<close>, whatever the trees
  are; and inserting the empty string at \<open>start\<close> returns \<open>c\<close>. The texts are
  those of the commands' content nodes, without their quotes.
\<close>

theorem C6_insert_start_end:
  assumes "child n1 0 = Some p1" and "child n1 1 = Some k1" and "ntext p1 = ''start''"
    and "child n2 0 = Some p2" and "child n2 1 = Some k2" and "ntext p2 = ''end''"
  shows "InsertCommand_execute n1 c tr = Inr (extractContent k1 @ c) \<and>
         InsertCommand_execute n2 c tr' = Inr (c @ extractContent k2) \<and>
         (case InsertCommand_execute n1 c tr of
            Inl err \<Rightarrow> Inl err
          | Inr c1 \<Rightarrow> InsertCommand_execute n2 c1 tr')
           = Inr (extractContent k1 @ c @ extractContent k2) \<and>
         (extractContent k1 = [] \<longrightarrow> InsertCommand_execute n1 c tr = Inr c)"
  using assms by (simp add: InsertCommand_execute_def)

theorem C6_insert_start_end_witness:
  "InsertCommand_execute insert_start_x ''foo bar'' tree_foo_bar = Inr ''xfoo bar'' \<and>
   InsertCommand_execute insert_end_y ''foo bar'' tree_foo_bar = Inr ''foo bary'' \<and>
   (case InsertCommand_execute insert_start_x ''foo bar'' tree_foo_bar of
      Inl err \<Rightarrow> Inl err
    | Inr c1 \<Rightarrow> InsertCommand_execute insert_end_y c1 tree_foo_bar) = Inr ''xfoo bary''"
proof -
  let ?p1 = "SyntaxNode ''position'' 7 12 ''start'' []"
  let ?k1 = "SyntaxNode ''string'' 13 16 ''\"x\"'' []"
  let ?p2 = "SyntaxNode ''position'' 7 10 ''end'' []"
  let ?k2 = "SyntaxNode ''string'' 11 14 ''\"y\"'' []"
  have h1: "child insert_start_x 0 = Some ?p1" and h2: "child insert_start_x 1 = Some ?k1"
    and h4: "child insert_end_y 0 = Some ?p2" and h5: "child insert_end_y 1 = Some ?k2"
    by (simp_all add: insert_start_x_def insert_end_y_def child_def)
  have h3: "ntext ?p1 = ''start''" and h6: "ntext ?p2 = ''end''"
    by simp_all
  have x: "extractContent ?k1 = ''x''" and y: "extractContent ?k2 = ''y''"
    by (simp_all add: extractContent_def strip_quotes_def is_quote_def)
  note th = C6_insert_start_end [OF h1 h2 h3 h4 h5 h6, where c = "''foo bar''"
      and tr = tree_foo_bar and tr' = tree_foo_bar, unfolded x y]
  from th [THEN conjunct1]
  have a: "InsertCommand_execute insert_start_x ''foo bar'' tree_foo_bar = Inr ''xfoo bar''"
    by simp
  from th [THEN conjunct2, THEN conjunct1]
  have b: "InsertCommand_execute insert_end_y ''foo bar'' tree_foo_bar = Inr ''foo bary''"
    by simp
  from th [THEN conjunct2, THEN conjunct2, THEN conjunct1]
  have c: "(case InsertCommand_execute insert_start_x ''foo bar'' tree_foo_bar of
      Inl err \<Rightarrow> Inl err
    | Inr c1 \<Rightarrow> InsertCommand_execute insert_end_y c1 tree_foo_bar) = Inr ''xfoo bary''"
    by simp
  from a b c show ?thesis by blast
qed

text \<open>
  Claim C5 says that INSERT with position \<open>before\<close> inserts the text immediately
  before the anchor match and with \<open>after\<close> immediately after it. The command
  \<open>INSERT before "X"\<close> on the content \<open>foo bar\<close> returns \<open>foo bar\<close> with
  nothing inserted, and so does \<open>INSERT after "X"\<close>: the branch of
  \<open>InsertCommand.execute\<close> for the two positions returns the content as it is.
\<close>

theorem C5_insert_relative_returns_content:
  "InsertCommand_execute
     (SyntaxNode ''insert_command'' 0 17 ''INSERT before \"X\"''
        [SyntaxNode ''position'' 7 13 ''before'' [], SyntaxNode ''string'' 14 17 ''\"X\"'' []])
     ''foo bar'' tree_foo_bar = Inr ''foo bar'' \<and>
   InsertCommand_execute
     (SyntaxNode ''insert_command'' 0 16 ''INSERT after \"X\"''
        [SyntaxNode ''position'' 7 12 ''after'' [], SyntaxNode ''string'' 13 16 ''\"X\"'' []])
     ''foo bar'' tree_foo_bar = Inr ''foo bar''"
  by (simp add: InsertCommand_execute_def child_def extractContent_def)

section \<open>The line rule engine: first match, removal, termination\<close>
















end
